theory Spec2Isabelle
  imports Main "HOL-Library.AList"
begin

section \<open>JavaScript values as the handlers see them\<close>

text \<open>
  The relay of \<^verbatim>\<open>src/server.js\<close> receives its event parameters from the wire, so
  a parameter may be any decoded value.  The handlers observe four things of a value:
  whether it is \<^verbatim>\<open>undefined\<close> (a default parameter applies), whether it is truthy,
  whether it has the string method \<^verbatim>\<open>toLowerCase\<close>, and its conversion to a string
  in a template literal.  Numbers are the integer-valued ones and \<^verbatim>\<open>NaN\<close>; an object
  or array is represented by the result of its string conversion, \<open>None\<close> when that
  conversion throws (an object with an own non-callable \<^verbatim>\<open>toString\<close> and
  \<^verbatim>\<open>valueOf\<close>).  Strings are character lists; \<^verbatim>\<open>toLowerCase\<close> is modelled on the
  ASCII letters.
\<close>

datatype jsval =
    JUndefined
  | JNull
  | JBool bool
  | JNum int
  | JNaN
  | JStr string
  | JObj "string option"

datatype error = TypeError

fun truthy :: "jsval \<Rightarrow> bool" where
  "truthy JUndefined = False"
| "truthy JNull = False"
| "truthy (JBool b) = b"
| "truthy (JNum n) = (n \<noteq> 0)"
| "truthy JNaN = False"
| "truthy (JStr s) = (s \<noteq> [])"
| "truthy (JObj r) = True"

text \<open>A default parameter \<^verbatim>\<open>(x = d)\<close> replaces \<^verbatim>\<open>undefined\<close> only.\<close>

definition dflt :: "jsval \<Rightarrow> jsval \<Rightarrow> jsval" where
  "dflt d v = (if v = JUndefined then d else v)"

definition lowerChar :: "char \<Rightarrow> char" where
  "lowerChar c =
     (case map_of (zip ''ABCDEFGHIJKLMNOPQRSTUVWXYZ'' ''abcdefghijklmnopqrstuvwxyz'') c of
        Some l \<Rightarrow> l
      | None \<Rightarrow> c)"

definition lower :: "string \<Rightarrow> string" where
  "lower s = map lowerChar s"

text \<open>\<^verbatim>\<open>v.toLowerCase()\<close>: only a string has the method; on any other value the call
  throws \<^verbatim>\<open>TypeError\<close>.\<close>

fun toLowerCase :: "jsval \<Rightarrow> error + string" where
  "toLowerCase (JStr s) = Inr (lower s)"
| "toLowerCase v = Inl TypeError"

definition digit :: "nat \<Rightarrow> char" where
  "digit n = ''0123456789'' ! n"

fun showNat :: "nat \<Rightarrow> string" where
  "showNat n = (if n < 10 then [digit n] else showNat (n div 10) @ [digit (n mod 10)])"

declare showNat.simps [simp del]

definition showInt :: "int \<Rightarrow> string" where
  "showInt i = (if i < 0 then CHR ''-'' # showNat (nat (- i)) else showNat (nat i))"

text \<open>The string conversion of a template literal \<^verbatim>\<open>`${v}`\<close>.\<close>

fun toStr :: "jsval \<Rightarrow> error + string" where
  "toStr JUndefined = Inr ''undefined''"
| "toStr JNull = Inr ''null''"
| "toStr (JBool b) = Inr (if b then ''true'' else ''false'')"
| "toStr (JNum n) = Inr (showInt n)"
| "toStr JNaN = Inr ''NaN''"
| "toStr (JStr s) = Inr s"
| "toStr (JObj r) = (case r of None \<Rightarrow> Inl TypeError | Some s \<Rightarrow> Inr s)"

section \<open>Room kinds and room names\<close>

definition CHAT_ROOMS_NORMAL :: string where
  "CHAT_ROOMS_NORMAL = ''chat-normal''"

definition CHAT_ROOMS_VIP :: string where
  "CHAT_ROOMS_VIP = ''chat-vip''"

text \<open>\<^verbatim>\<open>normalizeChatType\<close>: the conjunction short-circuits on a falsy input, so
  \<^verbatim>\<open>toLowerCase\<close> is called on truthy values only.\<close>

definition normalizeChatType :: "jsval \<Rightarrow> error + string" where
  "normalizeChatType inputChatType =
     (if truthy inputChatType then
        (case toLowerCase inputChatType of
           Inl e \<Rightarrow> Inl e
         | Inr l \<Rightarrow> if l = ''vip'' then Inr ''vip'' else Inr ''normal'')
      else Inr ''normal'')"

definition getChatRoom :: "string \<Rightarrow> string" where
  "getChatRoom chatType = (if chatType = ''vip'' then CHAT_ROOMS_VIP else CHAT_ROOMS_NORMAL)"

section \<open>The clock\<close>

text \<open>
  A handler runs to completion without yielding.  The model gives each run one reading
  \<open>now\<close> of the clock, in milliseconds since the epoch: it is what \<^verbatim>\<open>Date.now()\<close>
  returns and what \<^verbatim>\<open>new Date()\<close> holds during that run, and a timer set in the run
  is due \<open>10000\<close> milliseconds after it.  \<^verbatim>\<open>toISOString\<close> is the standard library's
  \<^verbatim>\<open>YYYY-MM-DDTHH:mm:ss.sssZ\<close> (with \<^verbatim>\<open>+YYYYYY\<close> for a year after 9999).
\<close>

function padStart :: "nat \<Rightarrow> string \<Rightarrow> string" where
  "padStart w s = (if length s < w then padStart w (CHR ''0'' # s) else s)"
  by pat_completeness auto
termination
  by (relation "measure (\<lambda>(w, s). w - length s)") auto

declare padStart.simps [simp del]

definition pad :: "nat \<Rightarrow> nat \<Rightarrow> string" where
  "pad w n = padStart w (showNat n)"

definition civil :: "nat \<Rightarrow> nat \<times> nat \<times> nat" where
  "civil days =
     (let z = days + 719468;
          era = z div 146097;
          doe = z mod 146097;
          yoe = (doe - doe div 1460 + doe div 36524 - doe div 146096) div 365;
          y = yoe + era * 400;
          doy = doe - (365 * yoe + yoe div 4 - yoe div 100);
          mp = (5 * doy + 2) div 153;
          d = doy - (153 * mp + 2) div 5 + 1;
          m = (if mp < 10 then mp + 3 else mp - 9)
      in (if m \<le> 2 then y + 1 else y, m, d))"

definition toISOString :: "nat \<Rightarrow> string" where
  "toISOString ms =
     (case civil (ms div 86400000) of (y, m, d) \<Rightarrow>
        (if y \<le> 9999 then pad 4 y else CHR ''+'' # pad 6 y)
        @ ''-'' @ pad 2 m @ ''-'' @ pad 2 d
        @ ''T'' @ pad 2 (ms div 3600000 mod 24)
        @ '':'' @ pad 2 (ms div 60000 mod 60)
        @ '':'' @ pad 2 (ms div 1000 mod 60)
        @ ''.'' @ pad 3 (ms mod 1000) @ ''Z'')"

section \<open>State and outbound events\<close>

text \<open>
  The four module-level stores of the source, the pending \<^verbatim>\<open>setTimeout\<close> callbacks
  (due instant and the fingerprint each one deletes), and what the handlers use of the
  transport: the live sockets (\<^verbatim>\<open>io.sockets.sockets\<close>) and the room bindings made by
  \<^verbatim>\<open>socket.join\<close>.  A plain object is an association list in insertion order, the
  order in which \<^verbatim>\<open>Object.entries\<close> lists it.  Socket ids are assumed not to be
  property names of \<^verbatim>\<open>Object.prototype\<close>.  The badge flag has its declared type,
  a boolean.
\<close>

record state =
  userAddresses :: "(string \<times> string) list"
  usernames :: "(string \<times> jsval) list"
  userBadges :: "(string \<times> bool) list"
  sentMessages :: "string set"
  timers :: "(nat \<times> string) list"
  sockets :: "string set"
  rooms :: "(string \<times> string) set"

definition init :: state where
  "init = \<lparr>userAddresses = [], usernames = [], userBadges = [], sentMessages = {},
           timers = [], sockets = {}, rooms = {}\<rparr>"

record message_obj =
  msg_id :: jsval
  msg_message :: jsval
  msg_username :: jsval
  msg_timestamp :: string
  msg_messageId :: string
  msg_chatType :: string

datatype target = ToSocket string | ToRoom string | ToAll

datatype out =
    EmitNewMessage target message_obj string
  | EmitBadgeUpdate string bool

text \<open>The transport registers a socket before the \<^verbatim>\<open>connection\<close> callback runs, and
  on a close it removes the socket and its room bindings before the \<^verbatim>\<open>disconnect\<close>
  callback runs.\<close>

definition connection :: "string \<Rightarrow> state \<Rightarrow> state" where
  "connection sid st = st\<lparr>sockets := insert sid (sockets st)\<rparr>"

definition transport_close :: "string \<Rightarrow> state \<Rightarrow> state" where
  "transport_close sid st =
     st\<lparr>sockets := sockets st - {sid}, rooms := Set.filter (\<lambda>(c, r). c \<noteq> sid) (rooms st)\<rparr>"


subsection \<open>The badge directory, a plain object\<close>

text \<open>
  \<^verbatim>\<open>userBadges[k]\<close> reads an own property or, without one, an inherited property of
  \<^verbatim>\<open>Object.prototype\<close>, which is a function or an object and so truthy.
  \<^verbatim>\<open>userBadges[k] = v\<close> makes an own property, except for \<^verbatim>\<open>__proto__\<close>, whose
  setter ignores a boolean.
\<close>

definition objectPrototypeKeys :: "string list" where
  "objectPrototypeKeys =
     [''constructor'', ''__defineGetter__'', ''__defineSetter__'', ''hasOwnProperty'',
      ''__lookupGetter__'', ''__lookupSetter__'', ''isPrototypeOf'',
      ''propertyIsEnumerable'', ''toString'', ''valueOf'', ''__proto__'',
      ''toLocaleString'']"

definition badgeGet :: "(string \<times> bool) list \<Rightarrow> string \<Rightarrow> bool" where
  "badgeGet badges k =
     (case map_of badges k of Some b \<Rightarrow> b | None \<Rightarrow> k \<in> set objectPrototypeKeys)"

definition badgeSet :: "(string \<times> bool) list \<Rightarrow> string \<Rightarrow> bool \<Rightarrow> (string \<times> bool) list" where
  "badgeSet badges k v = (if k = ''__proto__'' then badges else AList.update k v badges)"

subsection \<open>The deduplication window\<close>

text \<open>
  Both handlers inline the same steps: \<^verbatim>\<open>sentMessages.has(id)\<close>; when absent,
  \<^verbatim>\<open>sentMessages.add(id)\<close> and a \<^verbatim>\<open>setTimeout\<close> of 10000 ms that deletes \<open>id\<close>.
  \<open>advance now\<close> runs the timer callbacks that are due at \<open>now\<close>.
\<close>

definition admitOnce :: "nat \<Rightarrow> string \<Rightarrow> state \<Rightarrow> bool \<times> state" where
  "admitOnce now fp st =
     (if fp \<in> sentMessages st then (False, st)
      else (True, st\<lparr>sentMessages := insert fp (sentMessages st),
                      timers := timers st @ [(now + 10000, fp)]\<rparr>))"

definition advance :: "nat \<Rightarrow> state \<Rightarrow> state" where
  "advance now st =
     st\<lparr>sentMessages := sentMessages st - snd ` set (filter (\<lambda>(due, fp). due \<le> now) (timers st)),
        timers := filter (\<lambda>(due, fp). \<not> due \<le> now) (timers st)\<rparr>"

section \<open>The event handlers\<close>

text \<open>
  A handler takes the id of its socket (\<open>sid\<close>, \<^verbatim>\<open>socket.id\<close>), the clock reading
  \<open>now\<close> and the results of \<^verbatim>\<open>randomUUID()\<close> in the order of the calls (\<open>uuid 0\<close>,
  \<open>uuid 1\<close>, ...), where it uses them, then the event's parameters and the state.  A
  thrown exception ends the handler: \<open>Inl\<close> the error, \<open>Inr\<close> the new state and the
  events emitted, in order.  Output to the console is not modelled, but the template
  literals of its arguments are evaluated, since their string conversions can throw.
\<close>

definition andThen :: "error + 'a \<Rightarrow> ('a \<Rightarrow> error + 'b) \<Rightarrow> error + 'b" where
  "andThen r f = (case r of Inl e \<Rightarrow> Inl e | Inr x \<Rightarrow> f x)"

definition VIP_REJECT_TEXT :: string where
  "VIP_REJECT_TEXT = ''You need a diamond badge to send messages to the VIP chat''"

text \<open>The welcome text starts with the nine bytes that the source file holds before
  the word \<^verbatim>\<open>Congratulations\<close>.\<close>

definition VIP_WELCOME_TEXT :: string where
  "VIP_WELCOME_TEXT =
     [CHR 0xC3, CHR 0xB0, CHR 0xC5, CHR 0xB8, CHR 0xC5, CHR 0xBD, CHR 0xE2, CHR 0x80, CHR 0xB0]
     @ '' Congratulations! You now have access to the VIP chat!''"

text \<open>The object literal of both system notices; \<open>u\<close> is the result of
  \<^verbatim>\<open>randomUUID()\<close>.\<close>

definition systemMessage :: "nat \<Rightarrow> string \<Rightarrow> string \<Rightarrow> string \<Rightarrow> message_obj" where
  "systemMessage now u text kind =
     \<lparr>msg_id = JStr ''system'', msg_message = JStr text, msg_username = JStr ''System'',
      msg_timestamp = toISOString now,
      msg_messageId = ''system-'' @ showNat now @ ''-'' @ u,
      msg_chatType = kind\<rparr>"

text \<open>\<^verbatim>\<open>if (address) { userAddresses[socket.id] = address.toLowerCase(); }\<close>\<close>

definition storeAddress :: "string \<Rightarrow> jsval \<Rightarrow> state \<Rightarrow> error + state" where
  "storeAddress sid address st =
     (if truthy address then
        andThen (toLowerCase address)
          (\<lambda>a. Inr (st\<lparr>userAddresses := AList.update sid a (userAddresses st)\<rparr>))
      else Inr st)"

text \<open>\<^verbatim>\<open>join-chat\<close>.  The first template literal converts \<open>username\<close> and \<open>address\<close>
  to strings.\<close>

definition joinChat ::
  "string \<Rightarrow> jsval \<Rightarrow> jsval \<Rightarrow> jsval \<Rightarrow> state \<Rightarrow> error + state \<times> out list" where
  "joinChat sid username address0 inputChatType0 st =
     (let address = dflt (JStr []) address0;
          inputChatType = dflt (JStr ''normal'') inputChatType0 in
      andThen (normalizeChatType inputChatType) (\<lambda>chatType.
      let roomName = getChatRoom chatType in
      andThen (toStr username) (\<lambda>_.
      andThen (toStr address) (\<lambda>_.
      andThen (storeAddress sid address st) (\<lambda>st1.
      let st2 = st1\<lparr>usernames := AList.update sid username (usernames st1)\<rparr>;
          st3 = st2\<lparr>rooms := insert (sid, roomName) (rooms st2)\<rparr> in
      if truthy address then
        andThen (toLowerCase address) (\<lambda>a.
          if badgeGet (userBadges st3) a then Inr (st3, [EmitBadgeUpdate a True])
          else Inr (st3, []))
      else Inr (st3, []))))))"

text \<open>\<^verbatim>\<open>userAddresses[socket.id] || address\<close>\<close>

definition userAddressOf :: "state \<Rightarrow> string \<Rightarrow> jsval \<Rightarrow> jsval" where
  "userAddressOf st sid address =
     (case map_of (userAddresses st) sid of
        Some a \<Rightarrow> if a \<noteq> [] then JStr a else address
      | None \<Rightarrow> address)"

text \<open>\<^verbatim>\<open>userBadges[userAddress?.toLowerCase()] || false\<close>: the optional chaining gives
  \<^verbatim>\<open>undefined\<close> for \<^verbatim>\<open>null\<close> and \<^verbatim>\<open>undefined\<close>, which as a property key is the
  string \<^verbatim>\<open>"undefined"\<close>.\<close>

definition senderHasBadge :: "state \<Rightarrow> jsval \<Rightarrow> error + bool" where
  "senderHasBadge st userAddress =
     (if userAddress = JUndefined \<or> userAddress = JNull
      then Inr (badgeGet (userBadges st) ''undefined'')
      else andThen (toLowerCase userAddress) (\<lambda>k. Inr (badgeGet (userBadges st) k)))"

text \<open>The template literal of the message fingerprint, from the converted parts.\<close>

definition messageIdOf :: "string \<Rightarrow> string \<Rightarrow> string \<Rightarrow> string \<Rightarrow> string" where
  "messageIdOf s timestamp m chatType = s @ ''-'' @ timestamp @ ''-'' @ m @ ''-'' @ chatType"

text \<open>Lines 142 to 167 of \<^verbatim>\<open>send-message\<close>: the fingerprint, the admission and the
  room broadcast.\<close>

definition relay ::
  "string \<Rightarrow> nat \<Rightarrow> jsval \<Rightarrow> jsval \<Rightarrow> jsval \<Rightarrow> string \<Rightarrow> state \<Rightarrow> error + state \<times> out list" where
  "relay sid now message username userAddress chatType st =
     (let timestamp = toISOString now;
          sender = (if truthy userAddress then userAddress else JStr sid) in
      andThen (toStr sender) (\<lambda>s.
      andThen (toStr message) (\<lambda>m.
      let messageId = messageIdOf s timestamp m chatType;
          (admitted, st') = admitOnce now messageId st in
      if admitted then
        Inr (st', [EmitNewMessage (ToRoom (getChatRoom chatType))
                     \<lparr>msg_id = sender, msg_message = message, msg_username = username,
                      msg_timestamp = timestamp, msg_messageId = messageId,
                      msg_chatType = chatType\<rparr> chatType])
      else Inr (st, []))))"

definition sendMessage ::
  "string \<Rightarrow> nat \<Rightarrow> (nat \<Rightarrow> string) \<Rightarrow> jsval \<Rightarrow> jsval \<Rightarrow> jsval \<Rightarrow> jsval \<Rightarrow> state
     \<Rightarrow> error + state \<times> out list" where
  "sendMessage sid now uuid message username address0 inputChatType0 st =
     (let address = dflt (JStr []) address0;
          inputChatType = dflt (JStr ''normal'') inputChatType0 in
      andThen (normalizeChatType inputChatType) (\<lambda>chatType.
      andThen (toStr username) (\<lambda>_.
      andThen (storeAddress sid address st) (\<lambda>st1.
      let userAddress = userAddressOf st1 sid address in
      if chatType = ''vip'' then
        andThen (senderHasBadge st1 userAddress) (\<lambda>hasBadge.
          if \<not> hasBadge then
            Inr (st1, [EmitNewMessage (ToSocket sid)
                         (systemMessage now (uuid 0) VIP_REJECT_TEXT ''normal'') ''normal''])
          else relay sid now message username userAddress chatType st1)
      else relay sid now message username userAddress chatType st1))))"

text \<open>The loop of \<^verbatim>\<open>badge-update\<close> over \<^verbatim>\<open>Object.entries(userAddresses)\<close>; \<open>k\<close>
  counts the calls of \<^verbatim>\<open>randomUUID()\<close> made so far.\<close>

fun grantVip ::
  "nat \<Rightarrow> (nat \<Rightarrow> string) \<Rightarrow> string \<Rightarrow> (string \<times> string) list \<Rightarrow> nat \<Rightarrow> state
     \<Rightarrow> state \<times> out list" where
  "grantVip now uuid normalizedAddress [] k st = (st, [])"
| "grantVip now uuid normalizedAddress ((socketId, storedAddress) # es) k st =
     (if storedAddress = normalizedAddress \<and> socketId \<in> sockets st then
        let st1 = st\<lparr>rooms := insert (socketId, CHAT_ROOMS_VIP) (rooms st)\<rparr>;
            (st2, outs) = grantVip now uuid normalizedAddress es (Suc k) st1
        in (st2, EmitNewMessage (ToSocket socketId)
                   (systemMessage now (uuid k) VIP_WELCOME_TEXT ''vip'') ''vip'' # outs)
      else grantVip now uuid normalizedAddress es k st)"

definition badgeEventIdOf :: "string \<Rightarrow> bool \<Rightarrow> nat \<Rightarrow> string" where
  "badgeEventIdOf normalizedAddress hasBadge now =
     ''badge-'' @ normalizedAddress @ ''-'' @ (if hasBadge then ''true'' else ''false'')
     @ ''-'' @ showNat now"

definition badgeUpdate ::
  "nat \<Rightarrow> (nat \<Rightarrow> string) \<Rightarrow> jsval \<Rightarrow> bool \<Rightarrow> state \<Rightarrow> error + state \<times> out list" where
  "badgeUpdate now uuid address hasBadge st =
     (if \<not> truthy address then Inr (st, [])
      else
        andThen (toLowerCase address) (\<lambda>normalizedAddress.
        let st1 = st\<lparr>userBadges := badgeSet (userBadges st) normalizedAddress hasBadge\<rparr>;
            badgeEventId = badgeEventIdOf normalizedAddress hasBadge now;
            (admitted, st2) = admitOnce now badgeEventId st1 in
        if admitted then
          (if hasBadge then
             let (st3, outs) = grantVip now uuid normalizedAddress (userAddresses st2) 0 st2
             in Inr (st3, EmitBadgeUpdate normalizedAddress hasBadge # outs)
           else Inr (st2, [EmitBadgeUpdate normalizedAddress hasBadge]))
        else Inr (st1, [])))"

text \<open>\<^verbatim>\<open>disconnect\<close>: each record is deleted when the stored value is truthy.  The
  reason, a string of the transport, is only logged.\<close>

definition disconnect :: "string \<Rightarrow> state \<Rightarrow> error + state \<times> out list" where
  "disconnect sid st =
     (let st1 = (case map_of (userAddresses st) sid of
                   Some a \<Rightarrow> if a \<noteq> [] then st\<lparr>userAddresses := AList.delete sid (userAddresses st)\<rparr>
                             else st
                 | None \<Rightarrow> st);
          st2 = (case map_of (usernames st1) sid of
                   Some v \<Rightarrow> if truthy v then st1\<lparr>usernames := AList.delete sid (usernames st1)\<rparr>
                             else st1
                 | None \<Rightarrow> st1)
      in Inr (st2, []))"

section \<open>Observations on the emitted events\<close>

fun isRoomBroadcast :: "out \<Rightarrow> bool" where
  "isRoomBroadcast (EmitNewMessage (ToRoom r) m k) = True"
| "isRoomBroadcast ev = False"

fun isBadgeBroadcast :: "out \<Rightarrow> bool" where
  "isBadgeBroadcast (EmitBadgeUpdate a b) = True"
| "isBadgeBroadcast ev = False"

fun isNoticeTo :: "string \<Rightarrow> out \<Rightarrow> bool" where
  "isNoticeTo sid (EmitNewMessage (ToSocket c) m k) = (c = sid)"
| "isNoticeTo sid ev = False"

text \<open>A supply of identifiers for the examples.\<close>

definition exampleUuid :: "nat \<Rightarrow> string" where
  "exampleUuid k = ''00000000-0000-4000-8000-'' @ pad 12 k"

section \<open>Invariant and runs of the window\<close>

text \<open>
  What holds of every state the handlers reach from \<open>init\<close>: a connection has one
  stored address, stored addresses are non-empty, and the window holds exactly the
  fingerprints of the pending timers, one timer each.
\<close>

definition wellformed :: "state \<Rightarrow> bool" where
  "wellformed st \<longleftrightarrow> distinct (map fst (userAddresses st))
           \<and> [] \<notin> snd ` set (userAddresses st)
           \<and> distinct (map snd (timers st))
           \<and> sentMessages st = snd ` set (timers st)"

text \<open>Successive admissions of one fingerprint at the given instants; before each one
  the timers due by then have run.\<close>

fun admitAt :: "string \<Rightarrow> nat list \<Rightarrow> state \<Rightarrow> bool list \<times> state" where
  "admitAt fp [] st = ([], st)"
| "admitAt fp (t # ts) st =
     (let (r, st1) = admitOnce t fp (advance t st);
          (rs, st2) = admitAt fp ts st1
      in (r # rs, st2))"

text \<open>The fingerprint is in the window and its timer is due at \<open>due\<close>.\<close>

definition held :: "string \<Rightarrow> nat \<Rightarrow> state \<Rightarrow> bool" where
  "held fp due st \<longleftrightarrow> fp \<in> sentMessages st \<and> (due, fp) \<in> set (timers st)
                     \<and> (\<forall>d. (d, fp) \<in> set (timers st) \<longrightarrow> d = due)"

section \<open>Example states\<close>

text \<open>A state for the examples: two connections that joined the Standard room with the
  same address, which has no badge.\<close>

definition exampleJoined :: state where
  "exampleJoined =
     \<lparr>userAddresses = [(''c1'', ''0xab''), (''c2'', ''0xab'')],
      usernames = [(''c1'', JStr ''bob''), (''c2'', JStr ''ann'')],
      userBadges = [],
      sentMessages = {}, timers = [],
      sockets = {''c1'', ''c2''},
      rooms = {(''c1'', ''chat-normal''), (''c2'', ''chat-normal'')}\<rparr>"

text \<open>A state for the examples: two connections that joined the Standard room with the
  same address and were granted the Privileged room, after the window has emptied.\<close>

definition exampleState :: state where
  "exampleState =
     \<lparr>userAddresses = [(''c1'', ''0xab''), (''c2'', ''0xab'')],
      usernames = [(''c1'', JStr ''bob''), (''c2'', JStr ''ann'')],
      userBadges = [(''0xab'', True)],
      sentMessages = {}, timers = [],
      sockets = {''c1'', ''c2''},
      rooms = {(''c1'', ''chat-normal''), (''c2'', ''chat-normal''),
               (''c1'', ''chat-vip''), (''c2'', ''chat-vip'')}\<rparr>"

section \<open>Basic facts\<close>

lemma andThen_simps [simp]:
  "andThen (Inl e) f = Inl e" "andThen (Inr x) f = f x"
  by (simp_all add: andThen_def)

lemma andThen_eq_Inr: "andThen r f = Inr y \<longleftrightarrow> (\<exists>x. r = Inr x \<and> f x = Inr y)"
  by (cases r) simp_all

lemma lowerChar_v: "lowerChar c = CHR ''v'' \<longleftrightarrow> c = CHR ''v'' \<or> c = CHR ''V''"
  by (auto simp add: lowerChar_def split: option.splits if_splits)

lemma lowerChar_i: "lowerChar c = CHR ''i'' \<longleftrightarrow> c = CHR ''i'' \<or> c = CHR ''I''"
  by (auto simp add: lowerChar_def split: option.splits if_splits)

lemma lowerChar_p: "lowerChar c = CHR ''p'' \<longleftrightarrow> c = CHR ''p'' \<or> c = CHR ''P''"
  by (auto simp add: lowerChar_def split: option.splits if_splits)

lemma lower_vip_iff:
  "lower s = ''vip'' \<longleftrightarrow>
     s \<in> {''vip'', ''Vip'', ''vIp'', ''viP'', ''VIp'', ''ViP'', ''vIP'', ''VIP''}"
proof -
  have "lower s = ''vip'' \<longleftrightarrow>
        (\<exists>a b c. s = [a, b, c] \<and> lowerChar a = CHR ''v'' \<and> lowerChar b = CHR ''i''
                   \<and> lowerChar c = CHR ''p'')"
    unfolding lower_def by (auto simp add: map_eq_Cons_conv)
  also have "\<dots> \<longleftrightarrow> s \<in> {''vip'', ''Vip'', ''vIp'', ''viP'', ''VIp'', ''ViP'', ''vIP'', ''VIP''}"
    unfolding lowerChar_v lowerChar_i lowerChar_p by auto
  finally show ?thesis .
qed

lemma normalizeChatType_JStr:
  "normalizeChatType (JStr s) = Inr (if lower s = ''vip'' then ''vip'' else ''normal'')"
  by (cases s) (simp_all add: normalizeChatType_def lower_def)


lemma normalizeChatType_range:
  "normalizeChatType v = Inr chatType \<Longrightarrow> chatType = ''vip'' \<or> chatType = ''normal''"
  by (auto simp add: normalizeChatType_def andThen_eq_Inr split: if_splits sum.splits)

lemma storeAddress_cases:
  assumes "storeAddress sid address st = Inr st1"
  shows "(\<not> truthy address \<and> st1 = st) \<or>
         (truthy address \<and> (\<exists>a. toLowerCase address = Inr a
             \<and> st1 = st\<lparr>userAddresses := AList.update sid a (userAddresses st)\<rparr>))"
  using assms by (auto simp add: storeAddress_def andThen_eq_Inr split: if_splits)

lemma storeAddress_frame:
  assumes "storeAddress sid address st = Inr st1"
  shows "usernames st1 = usernames st" "userBadges st1 = userBadges st"
    "sentMessages st1 = sentMessages st" "timers st1 = timers st"
    "sockets st1 = sockets st" "rooms st1 = rooms st"
  using storeAddress_cases [OF assms] by auto

lemma joinChat_result:
  assumes "joinChat sid username address inputChatType st = Inr (st', outs)"
  shows "\<exists>chatType st1.
           normalizeChatType (dflt (JStr ''normal'') inputChatType) = Inr chatType
         \<and> storeAddress sid (dflt (JStr []) address) st = Inr st1
         \<and> st' = st1\<lparr>usernames := AList.update sid username (usernames st1),
                       rooms := insert (sid, getChatRoom chatType) (rooms st1)\<rparr>"
  using assms unfolding joinChat_def Let_def
  by (auto simp add: andThen_eq_Inr split: if_splits)

text \<open>Evaluations used by the examples.\<close>

lemma lower_examples:
  "lower ''vip'' = ''vip''" "lower ''VIP'' = ''vip''" "lower ''normal'' = ''normal''"
  "lower ''0xAB'' = ''0xab''" "lower ''0xab'' = ''0xab''" "lower ''0xCD'' = ''0xcd''"
  by (simp_all add: lower_def lowerChar_def)

lemma normalizeChatType_examples:
  "normalizeChatType (JStr ''vip'') = Inr ''vip''"
  "normalizeChatType (JStr ''VIP'') = Inr ''vip''"
  "normalizeChatType (JStr ''normal'') = Inr ''normal''"
  by (simp_all add: normalizeChatType_JStr lower_examples)

section \<open>Room normalization\<close>

text \<open>
  Claim C8.  \<^verbatim>\<open>normalizeChatType\<close> maps a string to the Privileged kind \<^verbatim>\<open>'vip'\<close>
  exactly when it is one of the eight spellings of "vip" in upper and lower case, and
  every other string, the empty string and an absent value (\<^verbatim>\<open>undefined\<close>, also after
  the handlers' default, and \<^verbatim>\<open>null\<close>) to the Standard kind \<^verbatim>\<open>'normal'\<close>; the two
  kinds name the two rooms.
\<close>

theorem normalizeChatType_room_kind:
  "normalizeChatType (JStr s) =
     Inr (if s \<in> {''vip'', ''Vip'', ''vIp'', ''viP'', ''VIp'', ''ViP'', ''vIP'', ''VIP''}
          then ''vip'' else ''normal'')
   \<and> normalizeChatType JUndefined = Inr ''normal''
   \<and> normalizeChatType JNull = Inr ''normal''
   \<and> normalizeChatType (dflt (JStr ''normal'') JUndefined) = Inr ''normal''
   \<and> normalizeChatType (JStr ''VIP'') = Inr ''vip''
   \<and> normalizeChatType (JStr ''vip'') = Inr ''vip''
   \<and> normalizeChatType (JStr ''Vip'') = Inr ''vip''
   \<and> normalizeChatType (JStr ''normal'') = Inr ''normal''
   \<and> normalizeChatType (JStr []) = Inr ''normal''
   \<and> normalizeChatType (JStr ''anything-else'') = Inr ''normal''
   \<and> getChatRoom ''vip'' = CHAT_ROOMS_VIP \<and> getChatRoom ''normal'' = CHAT_ROOMS_NORMAL"
proof -
  have absent: "normalizeChatType JUndefined = Inr ''normal''"
    "normalizeChatType JNull = Inr ''normal''"
    by (simp_all add: normalizeChatType_def)
  show ?thesis
    by (simp add: normalizeChatType_JStr absent lower_vip_iff dflt_def getChatRoom_def)
qed

section \<open>Joining\<close>

text \<open>
  Claim C1, as amended.  A join that returns binds the connection, in addition to the
  bindings it already had, to the room of its normalized room kind: the Privileged room
  when the request normalizes to \<^verbatim>\<open>'vip'\<close>, the Standard room otherwise.  The badge
  directory is not consulted for the binding and is left unchanged.
\<close>

theorem joinChat_binds_requested_room:
  assumes "joinChat sid username address inputChatType st = Inr (st', outs)"
  shows "\<exists>chatType. normalizeChatType (dflt (JStr ''normal'') inputChatType) = Inr chatType
           \<and> rooms st' = insert (sid, if chatType = ''vip'' then CHAT_ROOMS_VIP
                                        else CHAT_ROOMS_NORMAL) (rooms st)
           \<and> userBadges st' = userBadges st"
proof -
  from joinChat_result [OF assms] obtain chatType st1 where
    kind: "normalizeChatType (dflt (JStr ''normal'') inputChatType) = Inr chatType"
    and store: "storeAddress sid (dflt (JStr []) address) st = Inr st1"
    and st': "st' = st1\<lparr>usernames := AList.update sid username (usernames st1),
                       rooms := insert (sid, getChatRoom chatType) (rooms st1)\<rparr>"
    by blast
  from st' storeAddress_frame [OF store] kind show ?thesis
    by (simp add: getChatRoom_def)
qed

theorem joinChat_binds_requested_room_witness:
  "joinChat ''c2'' (JStr ''ann'') (JStr ''0xCD'') (JStr ''normal'') (connection ''c2'' init) =
     Inr (\<lparr>userAddresses = [(''c2'', ''0xcd'')], usernames = [(''c2'', JStr ''ann'')],
           userBadges = [], sentMessages = {}, timers = [], sockets = {''c2''},
           rooms = {(''c2'', ''chat-normal'')}\<rparr>, [])
   \<and> (\<exists>chatType. normalizeChatType (dflt (JStr ''normal'') (JStr ''normal'')) = Inr chatType
        \<and> rooms \<lparr>userAddresses = [(''c2'', ''0xcd'')], usernames = [(''c2'', JStr ''ann'')],
                  userBadges = [], sentMessages = {}, timers = [], sockets = {''c2''},
                  rooms = {(''c2'', ''chat-normal'')}\<rparr>
            = insert (''c2'', if chatType = ''vip'' then CHAT_ROOMS_VIP else CHAT_ROOMS_NORMAL)
                (rooms (connection ''c2'' init))
        \<and> userBadges \<lparr>userAddresses = [(''c2'', ''0xcd'')],
                  usernames = [(''c2'', JStr ''ann'')],
                  userBadges = [], sentMessages = {}, timers = [], sockets = {''c2''},
                  rooms = {(''c2'', ''chat-normal'')}\<rparr>
            = userBadges (connection ''c2'' init))"
proof -
  have run: "joinChat ''c2'' (JStr ''ann'') (JStr ''0xCD'') (JStr ''normal'')
               (connection ''c2'' init) =
     Inr (\<lparr>userAddresses = [(''c2'', ''0xcd'')], usernames = [(''c2'', JStr ''ann'')],
           userBadges = [], sentMessages = {}, timers = [], sockets = {''c2''},
           rooms = {(''c2'', ''chat-normal'')}\<rparr>, [])"
    by (simp add: joinChat_def Let_def storeAddress_def getChatRoom_def badgeGet_def
          objectPrototypeKeys_def normalizeChatType_examples lower_examples dflt_def
          connection_def init_def CHAT_ROOMS_NORMAL_def)
  from joinChat_binds_requested_room [OF run] run show ?thesis
    by simp
qed

text \<open>A join that asks for \<^verbatim>\<open>"vip"\<close> on a fresh server, with no badge anywhere, binds the
  connection to the Privileged room and not to the Standard room.\<close>

theorem joinChat_vip_counterexample:
  "joinChat ''c1'' (JStr ''bob'') (JStr []) (JStr ''vip'') (connection ''c1'' init) =
     Inr (\<lparr>userAddresses = [], usernames = [(''c1'', JStr ''bob'')], userBadges = [],
           sentMessages = {}, timers = [], sockets = {''c1''},
           rooms = {(''c1'', ''chat-vip'')}\<rparr>, [])"
  by (simp add: joinChat_def Let_def storeAddress_def getChatRoom_def
        normalizeChatType_examples dflt_def connection_def init_def CHAT_ROOMS_VIP_def)

section \<open>Totality of the handlers\<close>


lemma stringOrAbsent_cases:
  assumes "v \<in> range JStr \<union> {JUndefined, JNull}"
  obtains s where "v = JStr s" | "v = JUndefined" | "v = JNull"
  using assms by auto














section \<open>What a handler returns\<close>



lemma lower_Nil_iff: "lower s = [] \<longleftrightarrow> s = []"
  by (simp add: lower_def)

lemma toLowerCase_Inr: "toLowerCase v = Inr a \<longleftrightarrow> (\<exists>s. v = JStr s \<and> a = lower s)"
  by (cases v) auto

lemma admitOnce_frame:
  assumes "admitOnce now fp st = (admitted, st')"
  shows "userAddresses st' = userAddresses st" "usernames st' = usernames st"
    "userBadges st' = userBadges st" "sockets st' = sockets st" "rooms st' = rooms st"
  using assms by (auto simp add: admitOnce_def split: if_splits)

lemma relay_result:
  assumes "relay sid now message username userAddress chatType st = Inr (st', outs)"
  shows "\<exists>s m. toStr (if truthy userAddress then userAddress else JStr sid) = Inr s
           \<and> toStr message = Inr m
           \<and> ((messageIdOf s (toISOString now) m chatType \<in> sentMessages st
                 \<and> st' = st \<and> outs = [])
              \<or> (messageIdOf s (toISOString now) m chatType \<notin> sentMessages st
                 \<and> st' = st\<lparr>sentMessages :=
                               insert (messageIdOf s (toISOString now) m chatType) (sentMessages st),
                             timers := timers st
                               @ [(now + 10000, messageIdOf s (toISOString now) m chatType)]\<rparr>
                 \<and> outs = [EmitNewMessage (ToRoom (getChatRoom chatType))
                     \<lparr>msg_id = (if truthy userAddress then userAddress else JStr sid),
                      msg_message = message, msg_username = username,
                      msg_timestamp = toISOString now,
                      msg_messageId = messageIdOf s (toISOString now) m chatType,
                      msg_chatType = chatType\<rparr> chatType]))"
  using assms unfolding relay_def Let_def admitOnce_def
  by (auto simp add: andThen_eq_Inr split: if_splits)

lemma relay_frame:
  assumes "relay sid now message username userAddress chatType st = Inr (st', outs)"
  shows "userAddresses st' = userAddresses st" "usernames st' = usernames st"
    "userBadges st' = userBadges st" "sockets st' = sockets st" "rooms st' = rooms st"
  using relay_result [OF assms] by auto

lemma sendMessage_result:
  assumes "sendMessage sid now uuid message username address inputChatType st = Inr (st', outs)"
  shows "\<exists>chatType st1.
           normalizeChatType (dflt (JStr ''normal'') inputChatType) = Inr chatType
         \<and> storeAddress sid (dflt (JStr []) address) st = Inr st1
         \<and> ((chatType = ''vip''
               \<and> senderHasBadge st1 (userAddressOf st1 sid (dflt (JStr []) address)) = Inr False
               \<and> st' = st1
               \<and> outs = [EmitNewMessage (ToSocket sid)
                           (systemMessage now (uuid 0) VIP_REJECT_TEXT ''normal'') ''normal''])
            \<or> ((chatType = ''vip'' \<longrightarrow>
                  senderHasBadge st1 (userAddressOf st1 sid (dflt (JStr []) address)) = Inr True)
               \<and> relay sid now message username
                    (userAddressOf st1 sid (dflt (JStr []) address)) chatType st1 = Inr (st', outs)))"
  using assms unfolding sendMessage_def Let_def
  by (auto simp add: andThen_eq_Inr split: if_splits)



lemma disconnect_result:
  "\<exists>st'. disconnect sid st = Inr (st', [])
     \<and> userBadges st' = userBadges st \<and> sentMessages st' = sentMessages st
     \<and> timers st' = timers st \<and> sockets st' = sockets st \<and> rooms st' = rooms st
     \<and> (userAddresses st' = userAddresses st \<or> userAddresses st' = AList.delete sid (userAddresses st))
     \<and> (usernames st' = usernames st \<or> usernames st' = AList.delete sid (usernames st))
     \<and> (map_of (userAddresses st) sid \<notin> {None, Some []} \<longrightarrow> userAddresses st' = AList.delete sid (userAddresses st))"
  by (auto simp add: disconnect_def Let_def split: option.splits)

section \<open>Disconnecting\<close>

text \<open>
  Claim C9.  A disconnect, the transport's removal of the socket followed by the
  handler, emits nothing and leaves the badge directory as it was, so that the badge
  flag read for every address is the same before and after; the stored address, the
  stored name, the room bindings and the liveness of every other connection are
  unchanged, and so is the deduplication window.  When stored addresses are non-empty,
  as the handlers store them, the address record of the disconnecting connection is
  gone.
\<close>

theorem disconnect_frame:
  assumes "disconnect sid (transport_close sid st) = Inr (st', outs)"
  shows "outs = [] \<and> userBadges st' = userBadges st
       \<and> (\<forall>a. badgeGet (userBadges st') a = badgeGet (userBadges st) a)
       \<and> sentMessages st' = sentMessages st \<and> timers st' = timers st
       \<and> (\<forall>c. c \<noteq> sid \<longrightarrow>
              map_of (userAddresses st') c = map_of (userAddresses st) c
            \<and> map_of (usernames st') c = map_of (usernames st) c
            \<and> (\<forall>r. ((c, r) \<in> rooms st') = ((c, r) \<in> rooms st))
            \<and> ((c \<in> sockets st') = (c \<in> sockets st)))
       \<and> ((\<forall>(c, a) \<in> set (userAddresses st). a \<noteq> [])
              \<longrightarrow> map_of (userAddresses st') sid = None)"
proof -
  let ?st0 = "transport_close sid st"
  from disconnect_result [of sid ?st0] assms obtain
    o: "outs = []" and b: "userBadges st' = userBadges ?st0"
    and s: "sentMessages st' = sentMessages ?st0" and t: "timers st' = timers ?st0"
    and so: "sockets st' = sockets ?st0" and r: "rooms st' = rooms ?st0"
    and ua: "userAddresses st' = userAddresses ?st0 \<or> userAddresses st' = AList.delete sid (userAddresses ?st0)"
    and un: "usernames st' = usernames ?st0 \<or> usernames st' = AList.delete sid (usernames ?st0)"
    and del: "map_of (userAddresses ?st0) sid \<notin> {None, Some []} \<longrightarrow> userAddresses st' = AList.delete sid (userAddresses ?st0)"
    by auto
  have tc: "userAddresses ?st0 = userAddresses st" "usernames ?st0 = usernames st"
    "userBadges ?st0 = userBadges st" "sentMessages ?st0 = sentMessages st"
    "timers ?st0 = timers st" "sockets ?st0 = sockets st - {sid}"
    "rooms ?st0 = Set.filter (\<lambda>(c, r). c \<noteq> sid) (rooms st)"
    by (simp_all add: transport_close_def)
  have others: "c \<noteq> sid \<Longrightarrow>
              map_of (userAddresses st') c = map_of (userAddresses st) c
            \<and> map_of (usernames st') c = map_of (usernames st) c
            \<and> (\<forall>r. ((c, r) \<in> rooms st') = ((c, r) \<in> rooms st))
            \<and> ((c \<in> sockets st') = (c \<in> sockets st))" for c
    using ua un r so by (auto simp add: tc delete_conv')
  have gone: "map_of (userAddresses st') sid = None"
    if "\<forall>(c, a) \<in> set (userAddresses st). a \<noteq> []"
  proof (cases "map_of (userAddresses st) sid")
    case None
    with ua show ?thesis by (auto simp add: tc delete_conv')
  next
    case (Some a)
    then have "(sid, a) \<in> set (userAddresses st)" by (rule map_of_SomeD)
    with that have "a \<noteq> []" by auto
    with Some del have "userAddresses st' = AList.delete sid (userAddresses st)"
      by (simp add: tc)
    then show ?thesis by (simp add: delete_conv')
  qed
  from o b s t others gone show ?thesis
    by (simp add: tc)
qed

theorem disconnect_frame_witness:
  "disconnect ''c1'' (transport_close ''c1'' exampleState) =
     Inr (\<lparr>userAddresses = [(''c2'', ''0xab'')], usernames = [(''c2'', JStr ''ann'')],
           userBadges = [(''0xab'', True)], sentMessages = {}, timers = [],
           sockets = {''c2''},
           rooms = {(''c2'', ''chat-normal''), (''c2'', ''chat-vip'')}\<rparr>, [])
   \<and> userBadges \<lparr>userAddresses = [(''c2'', ''0xab'')], usernames = [(''c2'', JStr ''ann'')],
           userBadges = [(''0xab'', True)], sentMessages = {}, timers = [],
           sockets = {''c2''},
           rooms = {(''c2'', ''chat-normal''), (''c2'', ''chat-vip'')}\<rparr>
       = userBadges exampleState
   \<and> map_of (userAddresses exampleState) ''c2'' = Some ''0xab''
   \<and> map_of (usernames exampleState) ''c2'' = Some (JStr ''ann'')
   \<and> (''c2'', ''chat-vip'') \<in> rooms exampleState"
proof -
  have run: "disconnect ''c1'' (transport_close ''c1'' exampleState) =
     Inr (\<lparr>userAddresses = [(''c2'', ''0xab'')], usernames = [(''c2'', JStr ''ann'')],
           userBadges = [(''0xab'', True)], sentMessages = {}, timers = [],
           sockets = {''c2''},
           rooms = {(''c2'', ''chat-normal''), (''c2'', ''chat-vip'')}\<rparr>, [])"
    by (auto simp add: disconnect_def transport_close_def exampleState_def Let_def
          AList.delete_eq)
  from disconnect_frame [OF run] run show ?thesis
    by (simp add: exampleState_def)
qed

section \<open>Sending\<close>

lemma sendMessage_reject:
  assumes "normalizeChatType (dflt (JStr ''normal'') inputChatType) = Inr ''vip''"
    and "toStr username = Inr u"
    and "storeAddress sid (dflt (JStr []) address) st = Inr st1"
    and "senderHasBadge st1 (userAddressOf st1 sid (dflt (JStr []) address)) = Inr False"
  shows "sendMessage sid now uuid message username address inputChatType st =
           Inr (st1, [EmitNewMessage (ToSocket sid)
                        (systemMessage now (uuid 0) VIP_REJECT_TEXT ''normal'') ''normal''])"
  unfolding sendMessage_def Let_def by (simp add: assms)

lemma sendMessage_username:
  assumes "sendMessage sid now uuid message username address inputChatType st = Inr r"
  shows "\<exists>u. toStr username = Inr u"
  using assms unfolding sendMessage_def Let_def
  by (auto simp add: andThen_eq_Inr)


lemma storeAddress_again:
  assumes "storeAddress sid address st = Inr st1" and "userAddresses s = userAddresses st1"
  shows "storeAddress sid address s = Inr s"
  using storeAddress_cases [OF assms(1)] assms(2)
  by (auto simp add: storeAddress_def)

lemma userAddressOf_cong:
  "userAddresses s = userAddresses s' \<Longrightarrow> userAddressOf s sid a = userAddressOf s' sid a"
  by (simp add: userAddressOf_def)

lemma senderHasBadge_cong:
  "userBadges s = userBadges s' \<Longrightarrow> senderHasBadge s v = senderHasBadge s' v"
  by (simp add: senderHasBadge_def)

lemma relay_duplicate:
  assumes "toStr (if truthy userAddress then userAddress else JStr sid) = Inr s"
    and "toStr message = Inr m"
    and "messageIdOf s (toISOString now) m chatType \<in> sentMessages st"
  shows "relay sid now message username userAddress chatType st = Inr (st, [])"
  unfolding relay_def Let_def admitOnce_def using assms by simp

lemma relay_then_duplicate:
  assumes "relay sid now message username userAddress chatType st = Inr (st', outs)"
  shows "relay sid now message username userAddress chatType st' = Inr (st', [])"
proof -
  from relay_result [OF assms] obtain s m where
    s: "toStr (if truthy userAddress then userAddress else JStr sid) = Inr s"
    and m: "toStr message = Inr m"
    and "messageIdOf s (toISOString now) m chatType \<in> sentMessages st'"
    by auto
  then show ?thesis by (rule relay_duplicate)
qed

lemma relay_outs:
  assumes "relay sid now message username userAddress chatType st = Inr (st', outs)"
  shows "length (filter isRoomBroadcast outs) \<le> 1"
  using relay_result [OF assms] by auto


section \<open>The deduplication window\<close>

lemma held_advance:
  assumes "held fp due st" and "t < due"
  shows "held fp due (advance t st)"
  using assms by (auto simp add: held_def advance_def)

lemma held_admitOnce:
  assumes "held fp due st"
  shows "admitOnce t fp st = (False, st)"
  using assms by (simp add: held_def admitOnce_def)

lemma admitAt_held:
  assumes "held fp due st" and "\<forall>t \<in> set ts. t < due"
  shows "fst (admitAt fp ts st) = replicate (length ts) False
       \<and> held fp due (snd (admitAt fp ts st))"
  using assms
proof (induction ts arbitrary: st)
  case Nil
  then show ?case by simp
next
  case (Cons t ts)
  from Cons.prems have h: "held fp due (advance t st)"
    by (simp add: held_advance)
  from Cons.prems have "\<forall>t \<in> set ts. t < due" by simp
  from Cons.IH [OF h this] held_admitOnce [OF h, of t]
  show ?case by (simp add: split_beta)
qed

lemma admitOnce_fresh:
  assumes "fp \<notin> sentMessages st" and "fp \<notin> snd ` set (timers st)"
  shows "fst (admitOnce t fp st)" and "held fp (t + 10000) (snd (admitOnce t fp st))"
proof -
  have "d = t + 10000" if "(d, fp) \<in> set (timers st)" for d
  proof -
    from that have "snd (d, fp) \<in> snd ` set (timers st)" by (rule imageI)
    with assms(2) show ?thesis by simp
  qed
  with assms(1) show "fst (admitOnce t fp st)"
    and "held fp (t + 10000) (snd (admitOnce t fp st))"
    by (auto simp add: admitOnce_def held_def)
qed

lemma advance_fresh:
  assumes "fp \<notin> sentMessages st" and "fp \<notin> snd ` set (timers st)"
  shows "fp \<notin> sentMessages (advance t st)" and "fp \<notin> snd ` set (timers (advance t st))"
proof -
  show "fp \<notin> sentMessages (advance t st)"
    using assms(1) by (simp add: advance_def)
  have "set (timers (advance t st)) \<subseteq> set (timers st)"
    by (auto simp add: advance_def)
  then have "snd ` set (timers (advance t st)) \<subseteq> snd ` set (timers st)"
    by (rule image_mono)
  with assms(2) show "fp \<notin> snd ` set (timers (advance t st))"
    by blast
qed

lemma held_expired:
  assumes "held fp due st" and "due \<le> t"
  shows "fp \<notin> sentMessages (advance t st)" and "fp \<notin> snd ` set (timers (advance t st))"
proof -
  from assms have due: "(due, fp) \<in> set (filter (\<lambda>(d, f). d \<le> t) (timers st))"
    by (simp add: held_def)
  then have "snd (due, fp) \<in> snd ` set (filter (\<lambda>(d, f). d \<le> t) (timers st))"
    by (rule imageI)
  then show "fp \<notin> sentMessages (advance t st)"
    by (simp add: advance_def)
  show "fp \<notin> snd ` set (timers (advance t st))"
  proof
    assume "fp \<in> snd ` set (timers (advance t st))"
    then obtain d where d: "(d, fp) \<in> set (timers (advance t st))"
      by force
    then have "(d, fp) \<in> set (timers st)" and "\<not> d \<le> t"
      by (simp_all add: advance_def)
    with assms show False by (auto simp add: held_def)
  qed
qed

lemma admitAt_append:
  "admitAt fp (ts @ us) st =
     (fst (admitAt fp ts st) @ fst (admitAt fp us (snd (admitAt fp ts st))),
      snd (admitAt fp us (snd (admitAt fp ts st))))"
  by (induction ts arbitrary: st) (simp_all add: split_beta)

text \<open>
  Claim C6.  In a well-formed state that does not hold the fingerprint, a first admission
  at \<open>t0\<close> returns true; every further admission of the same fingerprint at an instant
  before \<open>t0 + 10000\<close>, however many there are, returns false; and an admission at an
  instant from \<open>t0 + 10000\<close> on, when the timer has removed the entry, returns true
  again.
\<close>

theorem admitOnce_window:
  assumes "wellformed st" and "fp \<notin> sentMessages st"
    and "\<forall>t \<in> set ts. t < t0 + 10000" and "t0 + 10000 \<le> t2"
  shows "fst (admitAt fp (t0 # ts @ [t2]) st) = True # replicate (length ts) False @ [True]"
proof -
  from assms(1,2) have nt: "fp \<notin> snd ` set (timers st)"
    by (simp add: wellformed_def)
  let ?s0 = "advance t0 st"
  let ?s1 = "snd (admitOnce t0 fp ?s0)"
  let ?s2 = "snd (admitAt fp ts ?s1)"
  from advance_fresh [OF assms(2) nt]
  have first: "fst (admitOnce t0 fp ?s0)" and h1: "held fp (t0 + 10000) ?s1"
    by (simp_all add: admitOnce_fresh)
  from admitAt_held [OF h1 assms(3)]
  have mid: "fst (admitAt fp ts ?s1) = replicate (length ts) False"
    and h2: "held fp (t0 + 10000) ?s2"
    by simp_all
  from held_expired [OF h2 assms(4)]
  have last: "fst (admitOnce t2 fp (advance t2 ?s2))"
    by (simp add: admitOnce_fresh)
  from first mid last show ?thesis
    by (simp add: admitAt_append split_beta)
qed

theorem admitOnce_window_witness:
  "wellformed init \<and> ''f'' \<notin> sentMessages init
   \<and> (2000::nat) < 0 + 10000 \<and> (9999::nat) < 0 + 10000 \<and> (0::nat) + 10000 \<le> 10000
   \<and> fst (admitAt ''f'' (0 # [2000, 9999] @ [10000]) init)
       = True # replicate (length [2000::nat, 9999]) False @ [True]"
proof -
  have 1: "wellformed init" by (simp add: wellformed_def init_def)
  have 2: "''f'' \<notin> sentMessages init" by (simp add: init_def)
  have 3: "\<forall>t \<in> set [2000, 9999]. t < (0::nat) + 10000" by simp
  have 4: "(0::nat) + 10000 \<le> 10000" by simp
  from admitOnce_window [OF 1 2 3 4] 1 2 show ?thesis by simp
qed

section \<open>The grant loop and the invariant\<close>

lemma grantVip_frame:
  "userAddresses (fst (grantVip now uuid a es k st)) = userAddresses st
 \<and> usernames (fst (grantVip now uuid a es k st)) = usernames st
 \<and> userBadges (fst (grantVip now uuid a es k st)) = userBadges st
 \<and> sentMessages (fst (grantVip now uuid a es k st)) = sentMessages st
 \<and> timers (fst (grantVip now uuid a es k st)) = timers st
 \<and> sockets (fst (grantVip now uuid a es k st)) = sockets st
 \<and> rooms st \<subseteq> rooms (fst (grantVip now uuid a es k st))"
proof (induction es arbitrary: k st)
  case Nil
  show ?case by simp
next
  case (Cons e es)
  obtain c b where e: "e = (c, b)" by (cases e)
  show ?case
  proof (cases "b = a \<and> c \<in> sockets st")
    case True
    let ?st1 = "st\<lparr>rooms := insert (c, CHAT_ROOMS_VIP) (rooms st)\<rparr>"
    from Cons.IH [of "Suc k" ?st1] True show ?thesis
      unfolding e by (auto simp add: split_beta Let_def)
  next
    case False
    from Cons.IH [of k st] False show ?thesis
      unfolding e by auto
  qed
qed

lemma grantVip_notices:
  "length (filter (isNoticeTo c) (snd (grantVip now uuid a es k st)))
     \<le> length (filter (\<lambda>e. fst e = c) es)
 \<and> filter isBadgeBroadcast (snd (grantVip now uuid a es k st)) = []
 \<and> filter isRoomBroadcast (snd (grantVip now uuid a es k st)) = []
 \<and> (filter (isNoticeTo c) (snd (grantVip now uuid a es k st)) \<noteq> []
      \<longrightarrow> c \<in> sockets st \<and> (c, a) \<in> set es)"
proof (induction es arbitrary: k st)
  case Nil
  show ?case by simp
next
  case (Cons e es)
  obtain c' b where e: "e = (c', b)" by (cases e)
  show ?case
  proof (cases "b = a \<and> c' \<in> sockets st")
    case True
    let ?st1 = "st\<lparr>rooms := insert (c', CHAT_ROOMS_VIP) (rooms st)\<rparr>"
    from Cons.IH [of "Suc k" ?st1] True show ?thesis
      unfolding e by (auto simp add: split_beta Let_def)
  next
    case False
    from Cons.IH [of k st] False show ?thesis
      unfolding e by auto
  qed
qed

lemma distinct_keys_once:
  assumes "distinct (map fst es)"
  shows "length (filter (\<lambda>e. fst e = c) es) \<le> 1"
  using assms
proof (induction es)
  case Nil
  show ?case by simp
next
  case (Cons e es)
  have "filter (\<lambda>e. fst e = c) es = []" if "fst e = c"
  proof -
    from Cons.prems that have "c \<notin> fst ` set es" by simp
    then have "\<forall>x \<in> set es. fst x \<noteq> c" by force
    then show ?thesis by (simp add: filter_empty_conv)
  qed
  with Cons show ?case by auto
qed

lemma badgeSet_idem: "badgeSet (badgeSet badges k v) k v = badgeSet badges k v"
  by (simp add: badgeSet_def)

lemma badgeUpdate_grant_result:
  assumes "badgeUpdate now uuid address True st = Inr (st', outs)"
  shows "(\<not> truthy address \<and> st' = st \<and> outs = [])
       \<or> (\<exists>s. address = JStr s \<and> s \<noteq> []
            \<and> userBadges st' = badgeSet (userBadges st) (lower s) True
            \<and> badgeEventIdOf (lower s) True now \<in> sentMessages st'
            \<and> userAddresses st' = userAddresses st \<and> usernames st' = usernames st
            \<and> sockets st' = sockets st
            \<and> (outs = []
               \<or> (\<exists>st2. outs = EmitBadgeUpdate (lower s) True
                          # snd (grantVip now uuid (lower s) (userAddresses st) 0 st2)
                        \<and> sockets st2 = sockets st)))"
proof (cases "truthy address")
  case False
  with assms show ?thesis by (simp add: badgeUpdate_def)
next
  case True
  with assms obtain s where s: "address = JStr s" "s \<noteq> []"
    unfolding badgeUpdate_def by (cases address) (auto simp add: andThen_eq_Inr)
  let ?st1 = "st\<lparr>userBadges := badgeSet (userBadges st) (lower s) True\<rparr>"
  let ?fp = "badgeEventIdOf (lower s) True now"
  show ?thesis
  proof (cases "?fp \<in> sentMessages st")
    case dup: True
    with assms s have "st' = ?st1" "outs = []"
      by (simp_all add: badgeUpdate_def Let_def admitOnce_def)
    with s dup show ?thesis by simp
  next
    case fresh: False
    let ?st2 = "?st1\<lparr>sentMessages := insert ?fp (sentMessages st),
                     timers := timers st @ [(now + 10000, ?fp)]\<rparr>"
    from assms s fresh
    have r: "st' = fst (grantVip now uuid (lower s) (userAddresses st) 0 ?st2)"
      "outs = EmitBadgeUpdate (lower s) True
                # snd (grantVip now uuid (lower s) (userAddresses st) 0 ?st2)"
      by (auto simp add: badgeUpdate_def Let_def admitOnce_def split_beta)
    from grantVip_frame [of now uuid "lower s" "userAddresses st" 0 ?st2] r(1)
    have "userBadges st' = badgeSet (userBadges st) (lower s) True"
      "?fp \<in> sentMessages st'" "userAddresses st' = userAddresses st"
      "usernames st' = usernames st" "sockets st' = sockets st"
      by simp_all
    moreover have "sockets ?st2 = sockets st" by simp
    ultimately show ?thesis using s r(2) by blast
  qed
qed


lemma wellformed_init: "wellformed init"
  by (simp add: wellformed_def init_def)

lemma wellformed_connection: "wellformed st \<Longrightarrow> wellformed (connection sid st)"
  by (simp add: wellformed_def connection_def)

lemma wellformed_transport_close: "wellformed st \<Longrightarrow> wellformed (transport_close sid st)"
  by (simp add: wellformed_def transport_close_def)

lemma update_values: "snd ` set (AList.update k v al) \<subseteq> insert v (snd ` set al)"
  by (induction al) auto

lemma wellformed_storeAddress:
  assumes "wellformed st" and "storeAddress sid address st = Inr st1"
  shows "wellformed st1"
proof -
  from storeAddress_cases [OF assms(2)] show ?thesis
  proof (elim disjE conjE exE)
    assume "st1 = st"
    with assms(1) show ?thesis by simp
  next
    fix a
    assume t: "truthy address" and a: "toLowerCase address = Inr a"
      and st1: "st1 = st\<lparr>userAddresses := AList.update sid a (userAddresses st)\<rparr>"
    from t a have "a \<noteq> []"
      by (auto simp add: toLowerCase_Inr lower_Nil_iff)
    with assms(1) update_values [of sid a "userAddresses st"]
    show ?thesis unfolding st1
      by (auto simp add: wellformed_def distinct_update)
  qed
qed

lemma wellformed_admitOnce:
  assumes "wellformed st"
  shows "wellformed (snd (admitOnce now fp st))"
  using assms by (auto simp add: wellformed_def admitOnce_def)

lemma wellformed_cong:
  assumes "wellformed st" and "userAddresses st' = userAddresses st"
    and "timers st' = timers st" and "sentMessages st' = sentMessages st"
  shows "wellformed st'"
  using assms by (simp add: wellformed_def)

lemma wellformed_relay:
  assumes "wellformed st"
    and "relay sid now message username userAddress chatType st = Inr (st', outs)"
  shows "wellformed st'"
proof -
  from relay_result [OF assms(2)] obtain s m where
    branch: "st' = st
       \<or> (messageIdOf s (toISOString now) m chatType \<notin> sentMessages st
          \<and> st' = st\<lparr>sentMessages :=
                         insert (messageIdOf s (toISOString now) m chatType) (sentMessages st),
                       timers := timers st
                         @ [(now + 10000, messageIdOf s (toISOString now) m chatType)]\<rparr>)"
    by blast
  let ?fp = "messageIdOf s (toISOString now) m chatType"
  from branch have "st' = st \<or> st' = snd (admitOnce now ?fp st)"
    by (auto simp add: admitOnce_def)
  with assms(1) wellformed_admitOnce [OF assms(1), of now ?fp] show ?thesis
    by auto
qed

lemma wellformed_sendMessage:
  assumes "wellformed st"
    and "sendMessage sid now uuid message username address inputChatType st = Inr (st', outs)"
  shows "wellformed st'"
proof -
  from sendMessage_result [OF assms(2)] obtain chatType st1 where
    store: "storeAddress sid (dflt (JStr []) address) st = Inr st1"
    and branch: "st' = st1 \<or> relay sid now message username
                    (userAddressOf st1 sid (dflt (JStr []) address)) chatType st1 = Inr (st', outs)"
    by blast
  from wellformed_storeAddress [OF assms(1) store] have "wellformed st1" .
  with branch wellformed_relay show ?thesis by blast
qed

lemma wellformed_joinChat:
  assumes "wellformed st"
    and "joinChat sid username address inputChatType st = Inr (st', outs)"
  shows "wellformed st'"
proof -
  from joinChat_result [OF assms(2)] obtain chatType st1 where
    store: "storeAddress sid (dflt (JStr []) address) st = Inr st1"
    and st': "st' = st1\<lparr>usernames := AList.update sid username (usernames st1),
                       rooms := insert (sid, getChatRoom chatType) (rooms st1)\<rparr>"
    by blast
  from wellformed_storeAddress [OF assms(1) store] show ?thesis
    unfolding st' by (simp add: wellformed_def)
qed

lemma wellformed_disconnect:
  assumes "wellformed st" and "disconnect sid st = Inr (st', outs)"
  shows "wellformed st'"
proof -
  from disconnect_result [of sid st] assms(2)
  have t: "timers st' = timers st" and s: "sentMessages st' = sentMessages st"
    and ua: "userAddresses st' = userAddresses st
             \<or> userAddresses st' = AList.delete sid (userAddresses st)"
    by auto
  have "set (AList.delete sid (userAddresses st)) \<subseteq> set (userAddresses st)"
    by (auto simp add: AList.delete_eq)
  then have "snd ` set (AList.delete sid (userAddresses st)) \<subseteq> snd ` set (userAddresses st)"
    by (rule image_mono)
  with assms(1) have "[] \<notin> snd ` set (AList.delete sid (userAddresses st))"
    unfolding wellformed_def by blast
  with assms(1) ua t s show ?thesis
    unfolding wellformed_def by (auto simp add: distinct_delete)
qed

lemma wellformed_badgeUpdate:
  assumes "wellformed st" and "badgeUpdate now uuid address hasBadge st = Inr (st', outs)"
  shows "wellformed st'"
proof (cases "truthy address")
  case False
  with assms show ?thesis by (simp add: badgeUpdate_def)
next
  case True
  with assms(2) obtain a where a: "toLowerCase address = Inr a"
    unfolding badgeUpdate_def by (auto simp add: andThen_eq_Inr)
  let ?st1 = "st\<lparr>userBadges := badgeSet (userBadges st) a hasBadge\<rparr>"
  let ?fp = "badgeEventIdOf a hasBadge now"
  have w1: "wellformed ?st1"
    using assms(1) by (simp add: wellformed_def)
  have w2: "wellformed (snd (admitOnce now ?fp ?st1))"
    by (rule wellformed_admitOnce [OF w1])
  from assms(2) True a
  have "st' = ?st1 \<or> st' = snd (admitOnce now ?fp ?st1)
        \<or> st' = fst (grantVip now uuid a (userAddresses (snd (admitOnce now ?fp ?st1))) 0
                        (snd (admitOnce now ?fp ?st1)))"
    unfolding badgeUpdate_def Let_def
    by (auto simp add: split_beta split: if_splits)
  with w1 w2 grantVip_frame [of now uuid a "userAddresses (snd (admitOnce now ?fp ?st1))" 0
      "snd (admitOnce now ?fp ?st1)"]
  show ?thesis
    by (auto intro: wellformed_cong)
qed

lemma wellformed_advance:
  assumes "wellformed st"
  shows "wellformed (advance now st)"
proof -
  let ?due = "filter (\<lambda>(due, fp). due \<le> now) (timers st)"
  let ?rest = "filter (\<lambda>(due, fp). \<not> due \<le> now) (timers st)"
  from assms have d: "distinct (map snd (timers st))"
    and s: "sentMessages st = snd ` set (timers st)"
    by (simp_all add: wellformed_def)
  from d have inj: "inj_on snd (set (timers st))"
    by (simp add: distinct_map)
  have "snd ` set (timers st) - snd ` set ?due = snd ` set ?rest"
  proof (intro set_eqI iffI)
    fix x
    assume "x \<in> snd ` set (timers st) - snd ` set ?due"
    then obtain p where p: "p \<in> set (timers st)" "x = snd p" and n: "x \<notin> snd ` set ?due"
      by auto
    from n p have "p \<notin> set ?due" by auto
    with p(1) have "p \<in> set ?rest" by auto
    with p(2) show "x \<in> snd ` set ?rest" by auto
  next
    fix x
    assume "x \<in> snd ` set ?rest"
    then obtain p where p: "p \<in> set ?rest" "x = snd p" by auto
    then have pt: "p \<in> set (timers st)" and nd: "p \<notin> set ?due" by auto
    have "x \<notin> snd ` set ?due"
    proof
      assume "x \<in> snd ` set ?due"
      then obtain q where q: "q \<in> set ?due" "x = snd q" by auto
      then have "q \<in> set (timers st)" by simp
      with inj pt p(2) q(2) have "p = q" by (auto dest: inj_onD)
      with nd q(1) show False by simp
    qed
    with pt p(2) show "x \<in> snd ` set (timers st) - snd ` set ?due" by auto
  qed
  with assms d show ?thesis
    by (simp add: wellformed_def advance_def s distinct_map_filter)
qed

text \<open>Evaluations used by the examples.\<close>

lemma toISOString_examples:
  "toISOString 0 = ''1970-01-01T00:00:00.000Z''"
  "toISOString 2000 = ''1970-01-01T00:00:02.000Z''"
  unfolding toISOString_def civil_def Let_def
  by (simp_all add: pad_def showNat.simps padStart.simps digit_def)

lemma showNat_examples:
  "showNat 0 = ''0''" "showNat 5000 = ''5000''"
  by (simp_all add: showNat.simps digit_def)

lemmas handler_eval =
  sendMessage_def relay_def admitOnce_def Let_def storeAddress_def userAddressOf_def
  senderHasBadge_def badgeGet_def objectPrototypeKeys_def messageIdOf_def getChatRoom_def
  dflt_def normalizeChatType_examples lower_examples CHAT_ROOMS_NORMAL_def CHAT_ROOMS_VIP_def

text \<open>The two example states arise from \<open>init\<close>: two connections join, the badge is
  granted at the instant 0 (the result is the one computed in the example of claim C4),
  and ten seconds pass.\<close>

lemma exampleJoined_reached:
  "joinChat ''c1'' (JStr ''bob'') (JStr ''0xAB'') JUndefined (connection ''c1'' init)
     = Inr (\<lparr>userAddresses = [(''c1'', ''0xab'')], usernames = [(''c1'', JStr ''bob'')],
             userBadges = [], sentMessages = {}, timers = [], sockets = {''c1''},
             rooms = {(''c1'', ''chat-normal'')}\<rparr>, [])"
  "joinChat ''c2'' (JStr ''ann'') (JStr ''0xab'') (JStr ''normal'')
     (connection ''c2''
        \<lparr>userAddresses = [(''c1'', ''0xab'')], usernames = [(''c1'', JStr ''bob'')],
         userBadges = [], sentMessages = {}, timers = [], sockets = {''c1''},
         rooms = {(''c1'', ''chat-normal'')}\<rparr>)
     = Inr (exampleJoined, [])"
  by (auto simp add: joinChat_def Let_def storeAddress_def getChatRoom_def badgeGet_def
        objectPrototypeKeys_def normalizeChatType_examples lower_examples dflt_def
        connection_def init_def exampleJoined_def CHAT_ROOMS_NORMAL_def)

lemma exampleState_reached:
  "advance 10000
     (exampleJoined\<lparr>userBadges := [(''0xab'', True)],
                    sentMessages := {''badge-0xab-true-0''},
                    timers := [(10000, ''badge-0xab-true-0'')],
                    rooms := {(''c2'', ''chat-vip''), (''c1'', ''chat-vip''),
                              (''c1'', ''chat-normal''), (''c2'', ''chat-normal'')}\<rparr>)
   = exampleState"
  by (auto simp add: advance_def exampleJoined_def exampleState_def)

lemma wellformed_examples: "wellformed exampleJoined" "wellformed exampleState"
  by (simp_all add: wellformed_def exampleJoined_def exampleState_def)

section \<open>Rejected sends to the Privileged room\<close>




section \<open>The badge gate\<close>



section \<open>Deduplication of messages\<close>

text \<open>
  Claim C2, as amended.  The fingerprint of a message contains the timestamp that the
  server takes when it handles the event.  When a send has returned, a second send with
  the same sender, text, name, address and room kind that is handled at the same clock
  reading produces no room broadcast and leaves the state as it is; the first one
  produces at most one room broadcast.
\<close>

theorem sendMessage_same_instant_deduplicated:
  assumes "sendMessage sid now uuid message username address inputChatType st = Inr (st1, outs1)"
  shows "\<exists>outs2. sendMessage sid now uuid' message username address inputChatType st1
                    = Inr (st1, outs2)
           \<and> filter isRoomBroadcast outs2 = []
           \<and> length (filter isRoomBroadcast outs1) \<le> 1"
proof -
  let ?a = "dflt (JStr []) address"
  from sendMessage_username [OF assms] obtain u where u: "toStr username = Inr u" ..
  from sendMessage_result [OF assms] obtain chatType stA where
    kind: "normalizeChatType (dflt (JStr ''normal'') inputChatType) = Inr chatType"
    and store: "storeAddress sid ?a st = Inr stA"
    and branch: "(chatType = ''vip''
               \<and> senderHasBadge stA (userAddressOf stA sid ?a) = Inr False
               \<and> st1 = stA
               \<and> outs1 = [EmitNewMessage (ToSocket sid)
                           (systemMessage now (uuid 0) VIP_REJECT_TEXT ''normal'') ''normal''])
            \<or> ((chatType = ''vip'' \<longrightarrow>
                  senderHasBadge stA (userAddressOf stA sid ?a) = Inr True)
               \<and> relay sid now message username (userAddressOf stA sid ?a) chatType stA
                   = Inr (st1, outs1))"
    by blast
  from branch show ?thesis
  proof (elim disjE conjE)
    assume vip: "chatType = ''vip''"
      and no: "senderHasBadge stA (userAddressOf stA sid ?a) = Inr False"
      and st1: "st1 = stA"
      and outs1: "outs1 = [EmitNewMessage (ToSocket sid)
                           (systemMessage now (uuid 0) VIP_REJECT_TEXT ''normal'') ''normal'']"
    have again: "storeAddress sid ?a stA = Inr stA"
      by (rule storeAddress_again [OF store refl])
    from kind vip have kind': "normalizeChatType (dflt (JStr ''normal'') inputChatType) = Inr ''vip''"
      by simp
    from sendMessage_reject [OF kind' u again no, of now uuid' message]
    show ?thesis unfolding st1 outs1 by simp
  next
    assume pass: "chatType = ''vip'' \<longrightarrow>
                  senderHasBadge stA (userAddressOf stA sid ?a) = Inr True"
      and r: "relay sid now message username (userAddressOf stA sid ?a) chatType stA
                   = Inr (st1, outs1)"
    have ua: "userAddresses st1 = userAddresses stA" and ub: "userBadges st1 = userBadges stA"
      using relay_frame [OF r] by simp_all
    have again: "storeAddress sid ?a st1 = Inr st1"
      by (rule storeAddress_again [OF store ua])
    have same_ua: "userAddressOf st1 sid ?a = userAddressOf stA sid ?a"
      by (rule userAddressOf_cong [OF ua])
    have same_b: "senderHasBadge st1 (userAddressOf st1 sid ?a)
                    = senderHasBadge stA (userAddressOf stA sid ?a)"
      unfolding same_ua by (rule senderHasBadge_cong [OF ub])
    have dup: "relay sid now message username (userAddressOf st1 sid ?a) chatType st1
                 = Inr (st1, [])"
      unfolding same_ua by (rule relay_then_duplicate [OF r])
    have second: "sendMessage sid now uuid' message username address inputChatType st1
                    = Inr (st1, [])"
      unfolding sendMessage_def Let_def using pass dup
      by (auto simp add: kind u again same_b)
    from second relay_outs [OF r] show ?thesis by simp
  qed
qed

theorem sendMessage_same_instant_deduplicated_witness:
  "sendMessage ''c2'' 2000 exampleUuid (JStr ''gm'') (JStr ''ann'') (JStr ''0xAB'') JUndefined
     exampleState
   = Inr (exampleState\<lparr>sentMessages := {''0xab-1970-01-01T00:00:02.000Z-gm-normal''},
                        timers := [(12000, ''0xab-1970-01-01T00:00:02.000Z-gm-normal'')]\<rparr>,
          [EmitNewMessage (ToRoom ''chat-normal'')
             \<lparr>msg_id = JStr ''0xab'', msg_message = JStr ''gm'', msg_username = JStr ''ann'',
              msg_timestamp = ''1970-01-01T00:00:02.000Z'',
              msg_messageId = ''0xab-1970-01-01T00:00:02.000Z-gm-normal'',
              msg_chatType = ''normal''\<rparr> ''normal''])
   \<and> (\<exists>outs2.
        sendMessage ''c2'' 2000 exampleUuid (JStr ''gm'') (JStr ''ann'') (JStr ''0xAB'') JUndefined
          (exampleState\<lparr>sentMessages := {''0xab-1970-01-01T00:00:02.000Z-gm-normal''},
                        timers := [(12000, ''0xab-1970-01-01T00:00:02.000Z-gm-normal'')]\<rparr>)
        = Inr (exampleState\<lparr>sentMessages := {''0xab-1970-01-01T00:00:02.000Z-gm-normal''},
                        timers := [(12000, ''0xab-1970-01-01T00:00:02.000Z-gm-normal'')]\<rparr>,
               outs2)
        \<and> filter isRoomBroadcast outs2 = [])"
proof -
  have run: "sendMessage ''c2'' 2000 exampleUuid (JStr ''gm'') (JStr ''ann'') (JStr ''0xAB'')
     JUndefined exampleState
   = Inr (exampleState\<lparr>sentMessages := {''0xab-1970-01-01T00:00:02.000Z-gm-normal''},
                        timers := [(12000, ''0xab-1970-01-01T00:00:02.000Z-gm-normal'')]\<rparr>,
          [EmitNewMessage (ToRoom ''chat-normal'')
             \<lparr>msg_id = JStr ''0xab'', msg_message = JStr ''gm'', msg_username = JStr ''ann'',
              msg_timestamp = ''1970-01-01T00:00:02.000Z'',
              msg_messageId = ''0xab-1970-01-01T00:00:02.000Z-gm-normal'',
              msg_chatType = ''normal''\<rparr> ''normal''])"
    by (simp add: handler_eval toISOString_examples exampleState_def)
  from sendMessage_same_instant_deduplicated [OF run, of exampleUuid] run
  show ?thesis by blast
qed

text \<open>The same send handled at the instants 0 and 2000, two seconds apart: the two
  timestamps differ, so do the fingerprints, and both sends are broadcast.\<close>

theorem sendMessage_retry_counterexample:
  "sendMessage ''c1'' 0 exampleUuid (JStr ''hi'') (JStr ''bob'') (JStr ''0xAB'') (JStr ''normal'')
     exampleState
   = Inr (exampleState\<lparr>sentMessages := {''0xab-1970-01-01T00:00:00.000Z-hi-normal''},
                        timers := [(10000, ''0xab-1970-01-01T00:00:00.000Z-hi-normal'')]\<rparr>,
          [EmitNewMessage (ToRoom ''chat-normal'')
             \<lparr>msg_id = JStr ''0xab'', msg_message = JStr ''hi'', msg_username = JStr ''bob'',
              msg_timestamp = ''1970-01-01T00:00:00.000Z'',
              msg_messageId = ''0xab-1970-01-01T00:00:00.000Z-hi-normal'',
              msg_chatType = ''normal''\<rparr> ''normal''])
   \<and> sendMessage ''c1'' 2000 exampleUuid (JStr ''hi'') (JStr ''bob'') (JStr ''0xAB'')
       (JStr ''normal'')
       (advance 2000
          (exampleState\<lparr>sentMessages := {''0xab-1970-01-01T00:00:00.000Z-hi-normal''},
                        timers := [(10000, ''0xab-1970-01-01T00:00:00.000Z-hi-normal'')]\<rparr>))
   = Inr (exampleState\<lparr>sentMessages := {''0xab-1970-01-01T00:00:02.000Z-hi-normal'',
                                         ''0xab-1970-01-01T00:00:00.000Z-hi-normal''},
                        timers := [(10000, ''0xab-1970-01-01T00:00:00.000Z-hi-normal''),
                                   (12000, ''0xab-1970-01-01T00:00:02.000Z-hi-normal'')]\<rparr>,
          [EmitNewMessage (ToRoom ''chat-normal'')
             \<lparr>msg_id = JStr ''0xab'', msg_message = JStr ''hi'', msg_username = JStr ''bob'',
              msg_timestamp = ''1970-01-01T00:00:02.000Z'',
              msg_messageId = ''0xab-1970-01-01T00:00:02.000Z-hi-normal'',
              msg_chatType = ''normal''\<rparr> ''normal''])"
  by (simp add: handler_eval toISOString_examples exampleState_def advance_def)

section \<open>Badge updates\<close>

text \<open>
  Claim C4.  In a well-formed state, when a badge update for an address with flag true
  has returned, a second one for the same address and flag that is handled at the same
  clock reading emits nothing and leaves the state as it is.  So both together emit at
  most one global badge update and at most one welcome notice per connection, and a
  welcome notice goes only to a live connection whose stored address is the lower-cased
  address.
\<close>

theorem badgeUpdate_twice_same_instant:
  assumes "wellformed st"
    and "badgeUpdate now uuid address True st = Inr (st1, outs1)"
  shows "\<exists>outs2. badgeUpdate now uuid' address True st1 = Inr (st1, outs2)
       \<and> outs2 = []
       \<and> length (filter isBadgeBroadcast (outs1 @ outs2)) \<le> 1
       \<and> (\<forall>c. length (filter (isNoticeTo c) (outs1 @ outs2)) \<le> 1)
       \<and> (\<forall>c. filter (isNoticeTo c) (outs1 @ outs2) \<noteq> []
              \<longrightarrow> c \<in> sockets st
                \<and> (\<exists>a. toLowerCase address = Inr a \<and> map_of (userAddresses st) c = Some a))"
proof -
  from assms(1) have keys: "distinct (map fst (userAddresses st))"
    by (simp add: wellformed_def)
  from badgeUpdate_grant_result [OF assms(2)]
  consider (ignored) "\<not> truthy address" "st1 = st" "outs1 = []"
    | (stored) s where "address = JStr s" "s \<noteq> []"
      "userBadges st1 = badgeSet (userBadges st) (lower s) True"
      "badgeEventIdOf (lower s) True now \<in> sentMessages st1"
      "outs1 = [] \<or> (\<exists>st2. outs1 = EmitBadgeUpdate (lower s) True
                          # snd (grantVip now uuid (lower s) (userAddresses st) 0 st2)
                        \<and> sockets st2 = sockets st)"
    by blast
  then show ?thesis
  proof cases
    case ignored
    then show ?thesis by (simp add: badgeUpdate_def)
  next
    case (stored s)
    note s = stored(1,2) and badges = stored(3) and fp = stored(4) and outs = stored(5)
    have again: "st1\<lparr>userBadges := badgeSet (userBadges st1) (lower s) True\<rparr> = st1"
      by (simp add: badges badgeSet_idem)
    have second: "badgeUpdate now uuid' address True st1 = Inr (st1, [])"
      using s fp by (simp add: badgeUpdate_def Let_def admitOnce_def again)
    have counts: "length (filter isBadgeBroadcast outs1) \<le> 1
       \<and> (\<forall>c. length (filter (isNoticeTo c) outs1) \<le> 1)
       \<and> (\<forall>c. filter (isNoticeTo c) outs1 \<noteq> []
              \<longrightarrow> c \<in> sockets st \<and> map_of (userAddresses st) c = Some (lower s))"
    proof (cases "outs1 = []")
      case True
      then show ?thesis by simp
    next
      case False
      with outs obtain st2 where
        o: "outs1 = EmitBadgeUpdate (lower s) True
                          # snd (grantVip now uuid (lower s) (userAddresses st) 0 st2)"
        and so2: "sockets st2 = sockets st"
        by blast
      have one: "length (filter (isNoticeTo c) outs1) \<le> 1" for c
      proof -
        from grantVip_notices [of c now uuid "lower s" "userAddresses st" 0 st2]
          distinct_keys_once [OF keys, of c]
        show ?thesis unfolding o by simp
      qed
      have who: "c \<in> sockets st \<and> map_of (userAddresses st) c = Some (lower s)"
        if "filter (isNoticeTo c) outs1 \<noteq> []" for c
      proof -
        from that grantVip_notices [of c now uuid "lower s" "userAddresses st" 0 st2]
        have "c \<in> sockets st2" and "(c, lower s) \<in> set (userAddresses st)"
          unfolding o by simp_all
        with keys so2 show ?thesis by simp
      qed
      have "length (filter isBadgeBroadcast outs1) \<le> 1"
        using grantVip_notices [of undefined now uuid "lower s" "userAddresses st" 0 st2]
        unfolding o by simp
      with one who show ?thesis by blast
    qed
    from second counts s show ?thesis by simp
  qed
qed

theorem badgeUpdate_twice_same_instant_witness:
  "wellformed exampleJoined
   \<and> badgeUpdate 0 exampleUuid (JStr ''0xAB'') True exampleJoined
      = Inr (exampleJoined\<lparr>userBadges := [(''0xab'', True)],
                           sentMessages := {''badge-0xab-true-0''},
                           timers := [(10000, ''badge-0xab-true-0'')],
                           rooms := {(''c2'', ''chat-vip''), (''c1'', ''chat-vip''),
                                     (''c1'', ''chat-normal''), (''c2'', ''chat-normal'')}\<rparr>,
             [EmitBadgeUpdate ''0xab'' True,
              EmitNewMessage (ToSocket ''c1'')
                (systemMessage 0 (exampleUuid 0) VIP_WELCOME_TEXT ''vip'') ''vip'',
              EmitNewMessage (ToSocket ''c2'')
                (systemMessage 0 (exampleUuid 1) VIP_WELCOME_TEXT ''vip'') ''vip''])
   \<and> (\<exists>outs2. badgeUpdate 0 exampleUuid (JStr ''0xAB'') True
          (exampleJoined\<lparr>userBadges := [(''0xab'', True)],
                           sentMessages := {''badge-0xab-true-0''},
                           timers := [(10000, ''badge-0xab-true-0'')],
                           rooms := {(''c2'', ''chat-vip''), (''c1'', ''chat-vip''),
                                     (''c1'', ''chat-normal''), (''c2'', ''chat-normal'')}\<rparr>)
        = Inr (exampleJoined\<lparr>userBadges := [(''0xab'', True)],
                           sentMessages := {''badge-0xab-true-0''},
                           timers := [(10000, ''badge-0xab-true-0'')],
                           rooms := {(''c2'', ''chat-vip''), (''c1'', ''chat-vip''),
                                     (''c1'', ''chat-normal''), (''c2'', ''chat-normal'')}\<rparr>,
               outs2)
        \<and> outs2 = [])"
proof -
  have w: "wellformed exampleJoined"
    by (simp add: wellformed_def exampleJoined_def)
  have run: "badgeUpdate 0 exampleUuid (JStr ''0xAB'') True exampleJoined
      = Inr (exampleJoined\<lparr>userBadges := [(''0xab'', True)],
                           sentMessages := {''badge-0xab-true-0''},
                           timers := [(10000, ''badge-0xab-true-0'')],
                           rooms := {(''c2'', ''chat-vip''), (''c1'', ''chat-vip''),
                                     (''c1'', ''chat-normal''), (''c2'', ''chat-normal'')}\<rparr>,
             [EmitBadgeUpdate ''0xab'' True,
              EmitNewMessage (ToSocket ''c1'')
                (systemMessage 0 (exampleUuid 0) VIP_WELCOME_TEXT ''vip'') ''vip'',
              EmitNewMessage (ToSocket ''c2'')
                (systemMessage 0 (exampleUuid 1) VIP_WELCOME_TEXT ''vip'') ''vip''])"
    by (simp add: badgeUpdate_def badgeSet_def badgeEventIdOf_def admitOnce_def Let_def
          lower_examples showNat_examples exampleJoined_def CHAT_ROOMS_VIP_def)
  from badgeUpdate_twice_same_instant [OF w run, of exampleUuid] w run
  show ?thesis by blast
qed



end
